theory Spec2Isabelle
  imports Main "HOL-Library.Word" "HOL-Library.Sublist" "HOL-Library.Signed_Division"
begin

section \<open>iRadioAudio.cpp: the audio control loop of the iRadio\<close>

text \<open>
  The embedding follows \<^verbatim>\<open>src/src/iRadioAudio.cpp\<close>.  The module-level variables
  become one record that every function takes and returns; calls into the display
  (\<^verbatim>\<open>streamingScreen.setText\<close>), the audio library and the pin API are recorded, in
  program order, in a trace of events.  Values read from the hardware (the ADC, the
  millisecond clock, the wall clock, the station list) arrive as arguments.
\<close>

subsection \<open>Constants\<close>

definition volume_max :: "8 word" where
  "volume_max = 20"

definition PRE :: "8 word" where
  "PRE = 25"

definition I2S_DOUT :: "8 word" where
  "I2S_DOUT = 25"

definition I2S_BCLK :: "8 word" where
  "I2S_BCLK = 27"

definition I2S_LRC :: "8 word" where
  "I2S_LRC = 26"

text \<open>\<^verbatim>\<open>constexpr u_int8_t volumeBlocks[5] = {0xD4, 0xD3, 0xD2, 0xD1, 0xD0}\<close>\<close>

definition volumeBlocks :: "8 word list" where
  "volumeBlocks = [0xD4, 0xD3, 0xD2, 0xD1, 0xD0]"

text \<open>The cast \<^verbatim>\<open>char(b)\<close> of a byte.\<close>

definition char_cast :: "8 word \<Rightarrow> char" where
  "char_cast b = char_of (unat b)"

subsection \<open>getBlocks\<close>

text \<open>
  \<^verbatim>\<open>for (uint8_t i = 0; i < volume / 5; i++) blocks += char(volumeBlocks[4]);\<close>
  The counter is a byte as in the source; \<open>n\<close> is \<^verbatim>\<open>volume / 5\<close>.
\<close>

function full_blocks_loop :: "8 word \<Rightarrow> 8 word \<Rightarrow> string \<Rightarrow> string" where
  "full_blocks_loop i n blocks =
     (if i < n then full_blocks_loop (i + 1) n (blocks @ [char_cast (volumeBlocks ! 4)])
      else blocks)"
  by pat_completeness auto
termination
proof (relation "measure (\<lambda>(i, n, blocks). unat n - unat i)")
  show "wf (measure (\<lambda>(i, n, blocks). unat n - unat i))"
    by simp
next
  fix i n :: "8 word" and blocks :: string
  assume lt: "i < n"
  then have "unat (i + 1) = Suc (unat i)"
    by unat_arith
  moreover from lt have "unat i < unat n"
    by (simp add: word_less_nat_alt)
  ultimately show "((i + 1, n, blocks @ [char_cast (volumeBlocks ! 4)]), (i, n, blocks))
      \<in> measure (\<lambda>(i, n, blocks). unat n - unat i)"
    by simp
qed

text \<open>\<^verbatim>\<open>while (blocks.length() < 7) blocks += " ";\<close>\<close>

function fill_spaces :: "string \<Rightarrow> string" where
  "fill_spaces blocks = (if length blocks < 7 then fill_spaces (blocks @ '' '') else blocks)"
  by pat_completeness auto
termination
  by (relation "measure (\<lambda>blocks. 7 - length blocks)") auto

definition getBlocks :: "8 word \<Rightarrow> string" where
  "getBlocks volume =
     (let blocks = '''';
          blocks = full_blocks_loop 0 (volume div 5) blocks;
          blocks = (if volume mod 5 \<noteq> 0
                    then blocks @ [char_cast (volumeBlocks ! unat (volume mod 5 - 1))]
                    else blocks);
          blocks = (if volume \<ge> 20 then blocks @ ''!'' else blocks)
      in fill_spaces blocks)"

subsection \<open>Arduino library functions used by the module\<close>

text \<open>
  Modelled from the spec: \<^verbatim>\<open>map\<close> belongs to the Arduino core and is not under
  \<^verbatim>\<open>src/\<close>; the spec's Volume Sampler ``linearly maps'' the raw reading onto
  \<open>[0, MAX_VOLUME]\<close>.  The definition is the core's integer formula
  \<^verbatim>\<open>(x - in_min) * (out_max - out_min) / (in_max - in_min) + out_min\<close> with C's
  truncating division (and the ESP32 core's result \<open>-1\<close> for an empty input range).
  The operands of this module are far below the range of \<^verbatim>\<open>long\<close>, so they are
  kept as unbounded integers.
\<close>

definition map_long :: "int \<Rightarrow> int \<Rightarrow> int \<Rightarrow> int \<Rightarrow> int \<Rightarrow> int" where
  "map_long x in_min in_max out_min out_max =
     (if in_max - in_min = 0 then - 1
      else ((x - in_min) * (out_max - out_min)) sdiv (in_max - in_min) + out_min)"

text \<open>
  The Arduino \<^verbatim>\<open>String\<close> class (WString.cpp of the core) is not under \<^verbatim>\<open>src/\<close>
  either.  \<^verbatim>\<open>indexOf(s2)\<close> is the position of the first occurrence of \<open>s2\<close> found
  by \<^verbatim>\<open>strstr\<close>, or \<open>-1\<close>; it answers \<open>-1\<close> at once when the start index \<open>0\<close>
  is not below the length.  \<^verbatim>\<open>substring(left, right)\<close> swaps its arguments when
  \<open>left > right\<close>, returns the empty string when \<open>left\<close> is not below the length, and
  cuts \<open>right\<close> down to the length.
\<close>

fun strstr :: "string \<Rightarrow> string \<Rightarrow> nat option" where
  "strstr [] s2 = (if s2 = [] then Some 0 else None)"
| "strstr (c # cs) s2 =
     (if prefix s2 (c # cs) then Some 0
      else (case strstr cs s2 of None \<Rightarrow> None | Some i \<Rightarrow> Some (Suc i)))"

definition indexOf :: "string \<Rightarrow> string \<Rightarrow> int" where
  "indexOf s s2 =
     (if 0 \<ge> length s then - 1
      else (case strstr s s2 of None \<Rightarrow> - 1 | Some i \<Rightarrow> int i))"

definition substring :: "string \<Rightarrow> nat \<Rightarrow> nat \<Rightarrow> string" where
  "substring s left right =
     (let (left, right) = (if left > right then (right, left) else (left, right))
      in if left \<ge> length s then []
         else let right = (if right > length s then length s else right)
              in take (right - left) (drop left s))"

subsection \<open>State, events and inputs\<close>

text \<open>
  The effects of the module on its collaborators.  \<open>SetText t r\<close> is
  \<^verbatim>\<open>streamingScreen.setText(t, r)\<close>, \<open>SetVolume v\<close> is \<^verbatim>\<open>audio.setVolume(v)\<close>
  (the parameter is a \<^verbatim>\<open>uint8_t\<close>), \<open>AudioLoop\<close> is \<^verbatim>\<open>audio.loop()\<close>.
\<close>

datatype event =
    SetText string nat
  | SetVolume "8 word"
  | AudioLoop
  | AnalogReadResolution nat
  | SetPinout "8 word" "8 word" "8 word"
  | PinModeMuteOutput
  | DigitalWriteMuteLow

text \<open>The result of \<^verbatim>\<open>getCurrentStation()\<close>: its fields \<^verbatim>\<open>name\<close> and \<^verbatim>\<open>url\<close>.\<close>

record station =
  station_name :: string
  station_url :: string

text \<open>
  The module-level variables: \<^verbatim>\<open>int volume\<close>, \<^verbatim>\<open>uint8_t oldvolume\<close>,
  \<^verbatim>\<open>uint8_t volcount\<close> and \<^verbatim>\<open>int voldisplaystart\<close> (32 bits on the ESP32, kept
  as the bit pattern the conversions from and to \<^verbatim>\<open>unsigned long\<close> preserve), and
  the trace of effects so far.
\<close>

record globals =
  volume :: int
  oldvolume :: "8 word"
  volcount :: "8 word"
  voldisplaystart :: "32 word"
  trace :: "event list"

definition boot :: globals where
  "boot = \<lparr>volume = 0, oldvolume = 0, volcount = 0, voldisplaystart = 0, trace = []\<rparr>"

definition emit :: "event \<Rightarrow> globals \<Rightarrow> globals" where
  "emit e s = s\<lparr>trace := trace s @ [e]\<rparr>"

text \<open>
  The weak callbacks that the audio library may invoke from inside \<^verbatim>\<open>audio.loop()\<close>,
  with their argument.
\<close>

datatype callback = ShowStreamTitle string | ShowStation string

text \<open>
  What one pass of \<^verbatim>\<open>loopAudioLautst\<close> reads from outside: \<^verbatim>\<open>millis()\<close> at the
  display check and at the commit, \<^verbatim>\<open>getTime()\<close>, the callbacks made during
  \<^verbatim>\<open>audio.loop()\<close>, \<^verbatim>\<open>analogRead(VOL)\<close> (a \<^verbatim>\<open>uint16_t\<close>) and
  \<^verbatim>\<open>getCurrentStation()\<close>.
\<close>

record tick_env =
  millis_check :: "32 word"
  millis_commit :: "32 word"
  clock :: string
  callbacks :: "callback list"
  adc :: "16 word"
  current_station :: station

subsection \<open>The stream callbacks\<close>

text \<open>
  \<^verbatim>\<open>extraChar\<close> is declared in iRadioDisplay.hpp and its body is not under
  \<^verbatim>\<open>src/\<close>: it is the parameter \<open>extraChar\<close>.  The index \<open>p\<close> is a \<^verbatim>\<open>uint8_t\<close>,
  so the \<^verbatim>\<open>int\<close> that \<^verbatim>\<open>indexOf\<close> returns is reduced modulo 256; \<^verbatim>\<open>p + 3\<close> is
  computed in \<^verbatim>\<open>int\<close>.
\<close>

definition audio_showstreamtitle :: "(string \<Rightarrow> string) \<Rightarrow> string \<Rightarrow> globals \<Rightarrow> globals" where
  "audio_showstreamtitle extraChar theStreamTitle s =
     (let name = extraChar theStreamTitle;
          p = (word_of_int (indexOf name '' - '') :: 8 word);
          p = (if p = 0 then word_of_int (indexOf name '': '') else p);
          s = emit (SetText (substring name 0 (unat p)) 2) s
      in emit (SetText (substring name (unat p + 3) (length name)) 3) s)"

definition audio_showstation :: "station \<Rightarrow> string \<Rightarrow> globals \<Rightarrow> globals" where
  "audio_showstation getCurrentStation theStation s =
     emit (SetText (station_name getCurrentStation) 1) s"

fun invoke :: "(string \<Rightarrow> string) \<Rightarrow> station \<Rightarrow> callback \<Rightarrow> globals \<Rightarrow> globals" where
  "invoke extraChar st (ShowStreamTitle t) s = audio_showstreamtitle extraChar t s"
| "invoke extraChar st (ShowStation t) s = audio_showstation st t s"

definition audio_loop :: "(string \<Rightarrow> string) \<Rightarrow> station \<Rightarrow> callback list \<Rightarrow> globals \<Rightarrow> globals" where
  "audio_loop extraChar st cbs s = fold (invoke extraChar st) cbs (emit AudioLoop s)"

subsection \<open>setupAudio and loopAudioLautst\<close>

text \<open>
  \<^verbatim>\<open>oldvolume = analogRead(VOL)\<close> stores the 16-bit reading in a byte, and the byte
  is what \<^verbatim>\<open>map\<close> then receives.
\<close>

definition setupAudio :: "16 word \<Rightarrow> globals \<Rightarrow> globals" where
  "setupAudio reading s =
     (let s = emit (AnalogReadResolution 10) s;
          s = emit (SetPinout I2S_BCLK I2S_LRC I2S_DOUT) s;
          s = s\<lparr>oldvolume := ucast reading\<rparr>;
          s = s\<lparr>oldvolume := word_of_int (map_long (uint (oldvolume s)) 0 1023 0 (uint volume_max))\<rparr>;
          s = emit (SetVolume (oldvolume s)) s;
          s = emit PinModeMuteOutput s
      in emit DigitalWriteMuteLow s)"

text \<open>
  \<^verbatim>\<open>voldisplaystart + 2000 < millis()\<close> compares an \<^verbatim>\<open>int\<close> with an
  \<^verbatim>\<open>unsigned long\<close>: the sum is converted and the comparison is unsigned, on 32 bits.
  The \<^verbatim>\<open>int\<close> addition is taken to wrap around in two's complement, as the code
  generated for this target does; the statements below about the hold time assume that
  \<open>t + 2000\<close> stays below \<open>2^32\<close>.
  \<^verbatim>\<open>audio.setVolume(volume)\<close>, \<^verbatim>\<open>getBlocks(volume)\<close> and
  \<^verbatim>\<open>oldvolume = volume\<close> convert the \<^verbatim>\<open>int\<close> to a byte; the comparison
  \<^verbatim>\<open>volume != oldvolume\<close> is made in \<^verbatim>\<open>int\<close>.
\<close>

definition loopAudioLautst :: "(string \<Rightarrow> string) \<Rightarrow> tick_env \<Rightarrow> globals \<Rightarrow> globals" where
  "loopAudioLautst extraChar env s =
     (let s = (if voldisplaystart s + 2000 < millis_check env
               then emit (SetText (''iRadio  '' @ clock env @ ''      '') 0) s
               else s);
          s = audio_loop extraChar (current_station env) (callbacks env) s;
          s = s\<lparr>volume := uint (adc env)\<rparr>;
          s = s\<lparr>volume := map_long (volume s) 0 1023 0 (uint volume_max)\<rparr>
      in if volume s \<noteq> uint (oldvolume s)
         then (if volcount s < 25
               then s\<lparr>volcount := volcount s + 1\<rparr>
               else (let s = s\<lparr>volcount := 0\<rparr>;
                         s = s\<lparr>voldisplaystart := millis_commit env\<rparr>;
                         s = emit (SetVolume (word_of_int (volume s))) s;
                         s = emit (SetText (getBlocks (word_of_int (volume s))) 0) s
                     in s\<lparr>oldvolume := word_of_int (volume s)\<rparr>))
         else s\<lparr>volcount := 0\<rparr>)"

text \<open>The control loop: one pass per element of the input list.\<close>

definition ticks :: "(string \<Rightarrow> string) \<Rightarrow> tick_env list \<Rightarrow> globals \<Rightarrow> globals" where
  "ticks extraChar envs s = fold (loopAudioLautst extraChar) envs s"

subsection \<open>Observations used by the statements\<close>

text \<open>The level that a pass computes from its reading.\<close>

definition level_of :: "16 word \<Rightarrow> int" where
  "level_of reading = map_long (uint reading) 0 1023 0 (uint volume_max)"

text \<open>A pass commits when it reaches the branch that calls \<^verbatim>\<open>audio.setVolume\<close>.\<close>

definition commits :: "tick_env \<Rightarrow> globals \<Rightarrow> bool" where
  "commits env s \<longleftrightarrow> level_of (adc env) \<noteq> uint (oldvolume s) \<and> \<not> volcount s < 25"

text \<open>
  Modelled from the spec: the Display Surface (\<^verbatim>\<open>streamingScreen\<close>, not under
  \<^verbatim>\<open>src/\<close>) ``accepts line-indexed text updates''; a region shows the text of the
  last \<^verbatim>\<open>setText\<close> made to it.
\<close>

fun apply_event :: "event \<Rightarrow> (nat \<Rightarrow> string option) \<Rightarrow> (nat \<Rightarrow> string option)" where
  "apply_event (SetText t r) d = d(r \<mapsto> t)"
| "apply_event e d = d"

definition shown :: "event list \<Rightarrow> nat \<Rightarrow> string option" where
  "shown tr = fold apply_event tr Map.empty"

text \<open>The default status line of region 0.\<close>

definition status_text :: "string \<Rightarrow> string" where
  "status_text t = ''iRadio  '' @ t @ ''      ''"

text \<open>
  Modelled from the spec: the body of \<^verbatim>\<open>extraChar\<close> is not under \<^verbatim>\<open>src/\<close>, and
  the spec's parser works on the raw title itself; for the concrete titles below, which
  are plain ASCII, the conversion is taken to return its argument.
\<close>

definition extraChar_plain :: "string \<Rightarrow> string" where
  "extraChar_plain text = text"

text \<open>
  The index \<open>p\<close> at which \<^verbatim>\<open>audio_showstreamtitle\<close> cuts the converted title
  \<open>name\<close>, and the two strings it passes to the display.
\<close>

definition split_index :: "string \<Rightarrow> 8 word" where
  "split_index name =
     (let p = (word_of_int (indexOf name '' - '') :: 8 word)
      in if p = 0 then word_of_int (indexOf name '': '') else p)"

definition shown_artist :: "string \<Rightarrow> string" where
  "shown_artist name = substring name 0 (unat (split_index name))"

definition shown_title :: "string \<Rightarrow> string" where
  "shown_title name = substring name (unat (split_index name) + 3) (length name)"

text \<open>The events of one callback.\<close>

fun callback_events :: "(string \<Rightarrow> string) \<Rightarrow> station \<Rightarrow> callback \<Rightarrow> event list" where
  "callback_events extraChar st (ShowStreamTitle t) =
     [SetText (shown_artist (extraChar t)) 2, SetText (shown_title (extraChar t)) 3]"
| "callback_events extraChar st (ShowStation t) = [SetText (station_name st) 1]"

text \<open>No pass of the list commits, started in \<open>s\<close>.\<close>

fun no_commits :: "(string \<Rightarrow> string) \<Rightarrow> tick_env list \<Rightarrow> globals \<Rightarrow> bool" where
  "no_commits extraChar [] s = True"
| "no_commits extraChar (env # envs) s =
     (\<not> commits env s \<and> no_commits extraChar envs (loopAudioLautst extraChar env s))"

text \<open>The events that a pass appended to the trace of the state it started in.\<close>

definition appended :: "globals \<Rightarrow> globals \<Rightarrow> event list" where
  "appended s s' = drop (length (trace s)) (trace s')"

text \<open>
  Concrete inputs for the examples: a pass at millisecond \<open>now\<close> that reads \<open>reading\<close>
  from the ADC, with no callback.
\<close>

definition pass_at :: "32 word \<Rightarrow> 16 word \<Rightarrow> tick_env" where
  "pass_at now reading =
     \<lparr>millis_check = now, millis_commit = now, clock = ''12:00'', callbacks = [],
      adc = reading,
      current_station = \<lparr>station_name = ''Station'', station_url = ''http://host/s''\<rparr>\<rparr>"

text \<open>
  Concrete states for the examples: the knob at 0 when \<^verbatim>\<open>setupAudio\<close> runs, then 25
  passes that read the maximum; and the state after the 26th such pass, made at
  millisecond 26.
\<close>

definition turned_up :: globals where
  "turned_up = ticks extraChar_plain (replicate 25 (pass_at 1 1023)) (setupAudio 0 boot)"

definition committed_at_26 :: globals where
  "committed_at_26 = loopAudioLautst extraChar_plain (pass_at 26 1023) turned_up"

text \<open>A pass at millisecond 100 during which the audio library reports a stream title.\<close>

definition title_pass :: tick_env where
  "title_pass = (pass_at 100 1023)\<lparr>callbacks := [ShowStreamTitle ''Radio Caprice - Industrial Mix'']\<rparr>"

section \<open>The volume indicator\<close>

lemma full_blocks_loop_unfold:
  "i \<le> n \<Longrightarrow>
   full_blocks_loop i n blocks = blocks @ replicate (unat n - unat i) (char_cast (volumeBlocks ! 4))"
proof (induction i n blocks rule: full_blocks_loop.induct)
  case (1 i n blocks)
  show ?case
  proof (cases "i < n")
    case True
    then have suc: "unat (i + 1) = Suc (unat i)"
      by unat_arith
    from True have lt: "unat i < unat n"
      by (simp add: word_less_nat_alt)
    then have le: "i + 1 \<le> n"
      using suc by (simp add: word_le_nat_alt)
    have "unat n - unat i = Suc (unat n - unat (i + 1))"
      using lt suc by simp
    then have "replicate (unat n - unat i) (char_cast (volumeBlocks ! 4)) =
        char_cast (volumeBlocks ! 4) # replicate (unat n - unat (i + 1)) (char_cast (volumeBlocks ! 4))"
      by simp
    with "1.IH" [OF True le] True show ?thesis
      by (simp del: full_blocks_loop.simps add: full_blocks_loop.simps [of i n blocks])
  next
    case False
    with "1.prems" have "i = n"
      by simp
    then show ?thesis
      by (simp del: full_blocks_loop.simps add: full_blocks_loop.simps [of n n blocks])
  qed
qed

lemma fill_spaces_eq:
  "fill_spaces blocks = blocks @ replicate (7 - length blocks) (CHR '' '')"
proof (induction blocks rule: fill_spaces.induct)
  case (1 blocks)
  show ?case
  proof (cases "length blocks < 7")
    case True
    then have "7 - length blocks = Suc (6 - length blocks)"
      by simp
    then have "replicate (7 - length blocks) (CHR '' '') =
        CHR '' '' # replicate (6 - length blocks) (CHR '' '')"
      by simp
    with "1.IH" [OF True] True show ?thesis
      by (simp del: fill_spaces.simps add: fill_spaces.simps [of blocks])
  next
    case False
    then show ?thesis
      by (simp del: fill_spaces.simps add: fill_spaces.simps [of blocks])
  qed
qed

lemma length_getBlocks:
  "length (getBlocks v) =
     max 7 (unat v div 5 + (if unat v mod 5 \<noteq> 0 then 1 else 0) + (if 20 \<le> unat v then 1 else 0))"
proof -
  have d: "unat (v div 5) = unat v div 5"
    by (simp add: unat_div)
  have m: "v mod 5 \<noteq> 0 \<longleftrightarrow> unat v mod 5 \<noteq> 0"
    by (simp add: unat_mod word_neq_0_conv word_less_nat_alt flip: unat_eq_0)
  have g: "20 \<le> v \<longleftrightarrow> 20 \<le> unat v"
    by (simp add: word_le_nat_alt)
  show ?thesis
    unfolding getBlocks_def Let_def
    by (simp only: full_blocks_loop_unfold [OF word_zero_le] fill_spaces_eq d m g)
       (auto simp del: full_blocks_loop.simps fill_spaces.simps simp add: max_def)
qed

text \<open>
  C6: for every volume level \<open>L\<close> in the closed range \<open>[0, 20]\<close>, \<open>getBlocks L\<close> is a
  string of exactly 7 characters.
\<close>

theorem getBlocks_length_7: "L \<le> 20 \<Longrightarrow> length (getBlocks L) = 7"
proof -
  assume "L \<le> 20"
  then have "unat L \<le> 20"
    by (simp add: word_le_nat_alt)
  then show ?thesis
    unfolding length_getBlocks by auto
qed

theorem getBlocks_length_7_witness: "(13 :: 8 word) \<le> 20 \<and> length (getBlocks 13) = 7"
  using getBlocks_length_7 [of 13] by simp

text \<open>
  C5, as stated: \<open>getBlocks 13\<close> would be two full glyphs, the partial glyph of gradient
  index 2 and two pad spaces.  That string has five characters; the function pads to
  seven, so it returns a different string.
\<close>

theorem getBlocks_13_counterexample:
  "getBlocks 13 \<noteq>
     replicate 2 (char_cast (volumeBlocks ! 4)) @ [char_cast (volumeBlocks ! 2)] @ replicate 2 (CHR '' '')"
  by code_simp

text \<open>
  C5, amended: \<open>getBlocks 13\<close> is two full glyphs, the partial glyph of gradient index
  2 and four pad spaces, seven characters in all; \<open>getBlocks 20\<close> is four full glyphs,
  the overflow marker and two pad spaces, seven characters in all.
\<close>

theorem getBlocks_13_and_20:
  "getBlocks 13 =
     replicate 2 (char_cast (volumeBlocks ! 4)) @ [char_cast (volumeBlocks ! 2)] @ replicate 4 (CHR '' '')
   \<and> length (getBlocks 13) = 7
   \<and> getBlocks 20 = replicate 4 (char_cast (volumeBlocks ! 4)) @ ''!'' @ replicate 2 (CHR '' '')
   \<and> length (getBlocks 20) = 7"
  by code_simp

section \<open>The stream callbacks\<close>

lemma audio_showstreamtitle_eq:
  "audio_showstreamtitle xc raw s =
     s\<lparr>trace := trace s @ [SetText (shown_artist (xc raw)) 2, SetText (shown_title (xc raw)) 3]\<rparr>"
  by (simp add: audio_showstreamtitle_def shown_artist_def shown_title_def split_index_def
      emit_def Let_def)

lemma invoke_eq: "invoke xc st cb s = s\<lparr>trace := trace s @ callback_events xc st cb\<rparr>"
  by (cases cb) (simp_all add: audio_showstreamtitle_eq audio_showstation_def emit_def)

lemma fold_invoke_eq:
  "fold (invoke xc st) cbs s = s\<lparr>trace := trace s @ concat (map (callback_events xc st) cbs)\<rparr>"
proof (induction cbs arbitrary: s)
  case Nil
  show ?case by simp
next
  case (Cons cb cbs)
  have "fold (invoke xc st) (cb # cbs) s = fold (invoke xc st) cbs (invoke xc st cb s)"
    by simp
  also have "\<dots> = (invoke xc st cb s)\<lparr>trace := trace (invoke xc st cb s)
      @ concat (map (callback_events xc st) cbs)\<rparr>"
    by (rule Cons.IH)
  also have "\<dots> = s\<lparr>trace := trace s @ concat (map (callback_events xc st) (cb # cbs))\<rparr>"
    by (simp add: invoke_eq)
  finally show ?case .
qed

lemma audio_loop_eq:
  "audio_loop xc st cbs s =
     s\<lparr>trace := trace s @ AudioLoop # concat (map (callback_events xc st) cbs)\<rparr>"
  by (simp add: audio_loop_def fold_invoke_eq emit_def)

lemma strstr_Some_sublist: "strstr s pat = Some i \<Longrightarrow> sublist pat s"
proof (induction s arbitrary: i)
  case Nil
  then show ?case
    by (simp split: if_splits)
next
  case (Cons c cs)
  show ?case
  proof (cases "prefix pat (c # cs)")
    case True
    then show ?thesis
      by (rule prefix_imp_sublist)
  next
    case False
    with Cons.prems obtain j where "strstr cs pat = Some j"
      by (auto split: option.splits)
    then have "sublist pat cs"
      by (rule Cons.IH)
    then show ?thesis
      by (simp add: sublist_Cons_right)
  qed
qed

lemma strstr_Some_split:
  "strstr s pat = Some i \<Longrightarrow> s = take i s @ pat @ drop (i + length pat) s"
proof (induction s arbitrary: i)
  case Nil
  then show ?case
    by (simp split: if_splits)
next
  case (Cons c cs)
  show ?case
  proof (cases "prefix pat (c # cs)")
    case True
    with Cons.prems have "i = 0"
      by simp
    with True show ?thesis
      by (auto simp: prefix_def)
  next
    case False
    with Cons.prems obtain j where j: "strstr cs pat = Some j" "i = Suc j"
      by (auto split: option.splits)
    from Cons.IH [OF j(1)] j(2) show ?thesis
      by simp
  qed
qed

lemma indexOf_absent: "\<not> sublist pat s \<Longrightarrow> indexOf s pat = - 1"
  using strstr_Some_sublist [of s pat]
  by (auto simp: indexOf_def split: option.splits)

lemma substring_from_0: "substring s 0 n = take n s"
  by (simp add: substring_def Let_def)

lemma substring_to_end: "substring s n (length s) = drop n s"
  by (simp add: substring_def Let_def)

lemma split_index_absent: "\<not> sublist '' - '' name \<Longrightarrow> split_index name = 255"
  by (simp add: split_index_def indexOf_absent Let_def)

lemma split_index_found:
  assumes "strstr name '' - '' = Some i" "0 < i" "i < 256"
  shows "unat (split_index name) = i"
proof -
  from assms(1) have "name \<noteq> []"
    by (cases name) (simp_all split: if_splits)
  with assms(1) have "indexOf name '' - '' = int i"
    by (simp add: indexOf_def)
  moreover have "unat (word_of_int (int i) :: 8 word) = i"
    using assms(3) by (simp add: unat_of_nat)
  moreover from this assms(2) have "(word_of_int (int i) :: 8 word) \<noteq> 0"
    by (metis not_less_iff_gr_or_eq unat_0)
  ultimately show ?thesis
    by (simp add: split_index_def Let_def)
qed

lemma primary_split_below_256:
  assumes "strstr (xc raw) '' - '' = Some i" "0 < i" "i < 256"
  shows "audio_showstreamtitle xc raw s =
     s\<lparr>trace := trace s @ [SetText (take i (xc raw)) 2, SetText (drop (i + 3) (xc raw)) 3]\<rparr>"
  by (simp add: audio_showstreamtitle_eq shown_artist_def shown_title_def
      split_index_found [OF assms] substring_from_0 substring_to_end)

lemma radio_caprice:
  "trace (audio_showstreamtitle extraChar_plain ''Radio Caprice - Industrial Mix'' boot) =
     [SetText ''Radio Caprice'' 2, SetText ''Industrial Mix'' 3]"
  by code_simp

text \<open>
  Whenever the converted title has no \<open>'' - ''\<close>, the byte \<open>p\<close> is 255 and the second
  search is skipped: the cut is made at 255, whatever else the title contains.
\<close>

lemma primary_absent_cut_at_255:
  assumes "\<not> sublist '' - '' (xc raw)"
  shows "audio_showstreamtitle xc raw s =
      s\<lparr>trace := trace s @ [SetText (take 255 (xc raw)) 2, SetText (drop 258 (xc raw)) 3]\<rparr>"
  by (simp add: audio_showstreamtitle_eq shown_artist_def shown_title_def
      split_index_absent [OF assms] substring_from_0 substring_to_end)

text \<open>
  C3: the claim has a title with neither separator shown with an empty artist and the
  whole string as title.  The handler has no branch for a search that finds nothing:
  the result \<open>-1\<close> of the first search becomes \<open>p = 255\<close>, the test \<open>p = 0\<close> meant for
  that case fails, and for \<open>''LiveStreamNoSplit''\<close> the whole string goes to region 2 as
  the artist and the empty string to region 3 as the title.
\<close>

theorem no_separator_not_handled:
  "trace (audio_showstreamtitle extraChar_plain ''LiveStreamNoSplit'' boot) =
     [SetText ''LiveStreamNoSplit'' 2, SetText [] 3]
   \<and> trace (audio_showstreamtitle extraChar_plain ''LiveStreamNoSplit'' boot) \<noteq>
     [SetText [] 2, SetText ''LiveStreamNoSplit'' 3]"
  by code_simp

text \<open>
  C4: the claim has the secondary separator \<open>'': ''\<close> tried whenever the primary one
  is absent.  The handler tests \<open>p = 0\<close>, and a missing primary separator gives
  \<open>p = 255\<close>, so on \<open>''Artist: Title''\<close> the second search is not made and nothing is
  split.
\<close>

theorem secondary_separator_not_tried:
  "trace (audio_showstreamtitle extraChar_plain ''Artist: Title'' boot) =
     [SetText ''Artist: Title'' 2, SetText '''' 3]"
  by code_simp

text \<open>
  C7: the claim has the split at the first \<open>'' - ''\<close> for every position \<open>p > 0\<close>.
  The position is kept in a byte: for a separator at position 256 the byte is 0, the
  second search runs and fails, and the cut is made at 255.  Below 256 the split is the
  claimed one (\<open>primary_split_below_256\<close>, \<open>radio_caprice\<close>).
\<close>

theorem primary_separator_beyond_255:
  "strstr (replicate 256 (CHR ''a'') @ '' - b'') '' - '' = Some 256
   \<and> trace (audio_showstreamtitle extraChar_plain (replicate 256 (CHR ''a'') @ '' - b'') boot) =
       [SetText (replicate 255 (CHR ''a'')) 2, SetText '' b'' 3]"
  by code_simp

text \<open>
  C10: for any two callback arguments \<open>s1\<close> and \<open>s2\<close> the station handler makes the
  same update: it writes the name of \<^verbatim>\<open>getCurrentStation()\<close> to region 1 and
  changes nothing else.
\<close>

theorem showstation_ignores_argument:
  "audio_showstation st s1 s = audio_showstation st s2 s
   \<and> audio_showstation st s1 s = s\<lparr>trace := trace s @ [SetText (station_name st) 1]\<rparr>"
  by (simp add: audio_showstation_def emit_def)
section \<open>One pass of the loop\<close>

lemma loopAudioLautst_eq:
  "loopAudioLautst xc env s =
     s\<lparr>volume := level_of (adc env),
       oldvolume := (if commits env s then word_of_int (level_of (adc env)) else oldvolume s),
       volcount := (if level_of (adc env) \<noteq> uint (oldvolume s) \<and> volcount s < 25
                    then volcount s + 1 else 0),
       voldisplaystart := (if commits env s then millis_commit env else voldisplaystart s),
       trace := trace s
          @ (if voldisplaystart s + 2000 < millis_check env
             then [SetText (status_text (clock env)) 0] else [])
          @ AudioLoop # concat (map (callback_events xc (current_station env)) (callbacks env))
          @ (if commits env s
             then [SetVolume (word_of_int (level_of (adc env))),
                   SetText (getBlocks (word_of_int (level_of (adc env)))) 0]
             else [])\<rparr>"
  by (simp add: loopAudioLautst_def audio_loop_eq commits_def level_of_def status_text_def
      emit_def Let_def)
lemma volcount_pass:
  "volcount (loopAudioLautst xc env s) =
     (if level_of (adc env) \<noteq> uint (oldvolume s) \<and> volcount s < 25 then volcount s + 1 else 0)"
  by (simp add: loopAudioLautst_eq)

lemma oldvolume_pass:
  "oldvolume (loopAudioLautst xc env s) =
     (if commits env s then word_of_int (level_of (adc env)) else oldvolume s)"
  by (simp add: loopAudioLautst_eq)

lemma voldisplaystart_pass:
  "voldisplaystart (loopAudioLautst xc env s) =
     (if commits env s then millis_commit env else voldisplaystart s)"
  by (simp add: loopAudioLautst_eq)

lemma trace_pass:
  "trace (loopAudioLautst xc env s) =
     trace s
       @ (if voldisplaystart s + 2000 < millis_check env
          then [SetText (status_text (clock env)) 0] else [])
       @ AudioLoop # concat (map (callback_events xc (current_station env)) (callbacks env))
       @ (if commits env s
          then [SetVolume (word_of_int (level_of (adc env))),
                SetText (getBlocks (word_of_int (level_of (adc env)))) 0]
          else [])"
  by (simp add: loopAudioLautst_eq)

lemma ticks_snoc: "ticks xc (es @ [e]) s = loopAudioLautst xc e (ticks xc es s)"
  by (simp add: ticks_def)

lemma ticks_Nil: "ticks xc [] s = s"
  by (simp add: ticks_def)

lemma ticks_Cons: "ticks xc (e # es) s = ticks xc es (loopAudioLautst xc e s)"
  by (simp add: ticks_def)

lemma callback_events_no_SetVolume: "SetVolume v \<notin> set (callback_events xc st cb)"
  by (cases cb) simp_all

lemma callbacks_no_SetVolume: "SetVolume v \<notin> set (concat (map (callback_events xc st) cbs))"
  by (induction cbs) (simp_all add: callback_events_no_SetVolume)

lemma appended_pass:
  "appended s (loopAudioLautst xc env s) =
     (if voldisplaystart s + 2000 < millis_check env
      then [SetText (status_text (clock env)) 0] else [])
     @ AudioLoop # concat (map (callback_events xc (current_station env)) (callbacks env))
     @ (if commits env s
        then [SetVolume (word_of_int (level_of (adc env))),
              SetText (getBlocks (word_of_int (level_of (adc env)))) 0]
        else [])"
  by (simp add: appended_def trace_pass)

lemma callback_events_not_region0: "SetText t 0 \<notin> set (callback_events xc st cb)"
  by (cases cb) simp_all

section \<open>The debouncer\<close>

lemma count_up: "c < (25 :: 8 word) \<Longrightarrow> unat (c + 1) = Suc (unat c)"
proof -
  assume "c < 25"
  then have "unat c < 25"
    by (simp add: word_less_nat_alt)
  then show ?thesis
    by (simp add: unat_word_ariths)
qed

lemma streak:
  assumes "volcount s0 = 0"
  shows "unat (volcount (ticks xc es s0)) \<le> length es \<and>
    (\<forall>k. length es - unat (volcount (ticks xc es s0)) \<le> k \<and> k < length es \<longrightarrow>
       level_of (adc (es ! k)) \<noteq> uint (oldvolume (ticks xc (take k es) s0)) \<and>
       oldvolume (ticks xc (take k es) s0) = oldvolume (ticks xc es s0))"
proof (induction es rule: rev_induct)
  case Nil
  show ?case
    using assms by (simp add: ticks_Nil)
next
  case (snoc e es)
  let ?s = "ticks xc es s0"
  show ?case
  proof (cases "level_of (adc e) \<noteq> uint (oldvolume ?s) \<and> volcount ?s < 25")
    case False
    then have "volcount (ticks xc (es @ [e]) s0) = 0"
      unfolding ticks_snoc volcount_pass by (simp only: if_False)
    then show ?thesis
      by simp
  next
    case True
    then have cnt: "unat (volcount (ticks xc (es @ [e]) s0)) = Suc (unat (volcount ?s))"
      by (simp add: ticks_snoc volcount_pass count_up)
    from True have old: "oldvolume (ticks xc (es @ [e]) s0) = oldvolume ?s"
      by (simp add: ticks_snoc oldvolume_pass commits_def)
    from snoc.IH have len: "unat (volcount ?s) \<le> length es"
      by simp
    have step: "level_of (adc ((es @ [e]) ! k)) \<noteq> uint (oldvolume (ticks xc (take k (es @ [e])) s0)) \<and>
          oldvolume (ticks xc (take k (es @ [e])) s0) = oldvolume ?s"
      if k: "length es - unat (volcount ?s) \<le> k" "k \<le> length es" for k
    proof (cases "k < length es")
      case True
      with k snoc.IH have
        a: "level_of (adc (es ! k)) \<noteq> uint (oldvolume (ticks xc (take k es) s0))" and
        b: "oldvolume (ticks xc (take k es) s0) = oldvolume ?s"
        by blast+
      from True have "(es @ [e]) ! k = es ! k" "take k (es @ [e]) = take k es"
        by (simp_all add: nth_append)
      with a b show ?thesis
        by (simp only: simp_thms)
    next
      case False
      with k have "k = length es"
        by simp
      with \<open>level_of (adc e) \<noteq> uint (oldvolume ?s) \<and> volcount ?s < 25\<close> show ?thesis
        by simp
    qed
    show ?thesis
    proof (rule conjI; (intro allI impI)?)
      show "unat (volcount (ticks xc (es @ [e]) s0)) \<le> length (es @ [e])"
        using cnt len by simp
    next
      fix k
      assume "length (es @ [e]) - unat (volcount (ticks xc (es @ [e]) s0)) \<le> k \<and>
        k < length (es @ [e])"
      then have "length es - unat (volcount ?s) \<le> k" "k \<le> length es"
        using cnt len by simp_all
      then have "level_of (adc ((es @ [e]) ! k)) \<noteq> uint (oldvolume (ticks xc (take k (es @ [e])) s0)) \<and>
          oldvolume (ticks xc (take k (es @ [e])) s0) = oldvolume ?s"
        by (rule step)
      then show "level_of (adc ((es @ [e]) ! k)) \<noteq> uint (oldvolume (ticks xc (take k (es @ [e])) s0)) \<and>
          oldvolume (ticks xc (take k (es @ [e])) s0) = oldvolume (ticks xc (es @ [e]) s0)"
        using old by metis
    qed
  qed
qed

text \<open>
  C1, as stated: a pass whose sample equals the level observed by the pass before would
  reset the counter, and the remembered level would follow the sample on every pass.
  After \<^verbatim>\<open>setupAudio\<close> with the knob at 0, two passes read the maximum: the second
  sample equals the one observed before it, the counter is not 0, and \<^verbatim>\<open>oldvolume\<close>,
  the level the comparison uses, is not the sample.
\<close>

theorem debounce_last_observed_counterexample:
  "level_of (adc (pass_at 2 1023)) =
     volume (ticks extraChar_plain [pass_at 1 1023] (setupAudio 0 boot))
   \<and> volcount (ticks extraChar_plain [pass_at 1 1023, pass_at 2 1023] (setupAudio 0 boot)) \<noteq> 0
   \<and> uint (oldvolume (ticks extraChar_plain [pass_at 1 1023, pass_at 2 1023] (setupAudio 0 boot))) \<noteq>
       level_of (adc (pass_at 2 1023))"
  by code_simp

text \<open>
  C1, amended: the comparison is with \<^verbatim>\<open>oldvolume\<close>, the last committed level.
  Started with the counter at 0, a pass commits only if at least 25 passes precede it
  and each of the last 25 read a level different from \<^verbatim>\<open>oldvolume\<close>, which stayed
  the same, as does the committing pass itself: 26 consecutive passes.  A commit calls
  \<^verbatim>\<open>audio.setVolume\<close>, writes the indicator to region 0, sets \<^verbatim>\<open>oldvolume\<close> to
  the sample and the counter to 0.  A pass that does not commit calls no
  \<^verbatim>\<open>setVolume\<close>, writes at most the status line to region 0 and leaves
  \<^verbatim>\<open>oldvolume\<close> as it was.  A pass whose sample equals \<^verbatim>\<open>oldvolume\<close> sets the
  counter to 0 and does not commit.
\<close>

theorem debounce_against_committed_level:
  assumes "volcount s0 = 0"
  shows "(commits e (ticks xc es s0) \<longrightarrow>
            25 \<le> length es \<and>
            (\<forall>k. length es - 25 \<le> k \<and> k < length es \<longrightarrow>
               level_of (adc (es ! k)) \<noteq> uint (oldvolume (ticks xc (take k es) s0)) \<and>
               oldvolume (ticks xc (take k es) s0) = oldvolume (ticks xc es s0)) \<and>
            level_of (adc e) \<noteq> uint (oldvolume (ticks xc es s0)))
    \<and> (commits e s \<longrightarrow>
          (\<exists>pre. appended s (loopAudioLautst xc e s) =
             pre @ [SetVolume (word_of_int (level_of (adc e))),
                    SetText (getBlocks (word_of_int (level_of (adc e)))) 0]) \<and>
          oldvolume (loopAudioLautst xc e s) = word_of_int (level_of (adc e)) \<and>
          volcount (loopAudioLautst xc e s) = 0)
    \<and> (\<not> commits e' s' \<longrightarrow>
          (\<forall>v. SetVolume v \<notin> set (appended s' (loopAudioLautst xc e' s'))) \<and>
          (\<forall>t. SetText t 0 \<in> set (appended s' (loopAudioLautst xc e' s')) \<longrightarrow>
               t = status_text (clock e')) \<and>
          oldvolume (loopAudioLautst xc e' s') = oldvolume s')
    \<and> (level_of (adc e') = uint (oldvolume s') \<longrightarrow>
          volcount (loopAudioLautst xc e' s') = 0 \<and> \<not> commits e' s')"
proof -
  have a: "25 \<le> length es \<and>
      (\<forall>k. length es - 25 \<le> k \<and> k < length es \<longrightarrow>
         level_of (adc (es ! k)) \<noteq> uint (oldvolume (ticks xc (take k es) s0)) \<and>
         oldvolume (ticks xc (take k es) s0) = oldvolume (ticks xc es s0)) \<and>
      level_of (adc e) \<noteq> uint (oldvolume (ticks xc es s0))"
    if c: "commits e (ticks xc es s0)"
  proof -
    let ?s = "ticks xc es s0"
    from c have "25 \<le> volcount ?s"
      by (simp add: commits_def not_less)
    then have n: "25 \<le> unat (volcount ?s)"
      by (simp add: word_le_nat_alt)
    note inv = streak [OF assms, of xc es]
    from inv n have "25 \<le> length es"
      by simp
    moreover have "level_of (adc (es ! k)) \<noteq> uint (oldvolume (ticks xc (take k es) s0)) \<and>
        oldvolume (ticks xc (take k es) s0) = oldvolume ?s"
      if "length es - 25 \<le> k \<and> k < length es" for k
    proof -
      from that n have "length es - unat (volcount ?s) \<le> k \<and> k < length es"
        by arith
      with inv show ?thesis
        by blast
    qed
    moreover from c have "level_of (adc e) \<noteq> uint (oldvolume ?s)"
      by (simp add: commits_def)
    ultimately show ?thesis
      by blast
  qed
  have b: "(\<exists>pre. appended s (loopAudioLautst xc e s) =
             pre @ [SetVolume (word_of_int (level_of (adc e))),
                    SetText (getBlocks (word_of_int (level_of (adc e)))) 0]) \<and>
          oldvolume (loopAudioLautst xc e s) = word_of_int (level_of (adc e)) \<and>
          volcount (loopAudioLautst xc e s) = 0"
    if c: "commits e s"
  proof -
    from c have "appended s (loopAudioLautst xc e s) =
        ((if voldisplaystart s + 2000 < millis_check e
          then [SetText (status_text (clock e)) 0] else [])
         @ AudioLoop # concat (map (callback_events xc (current_station e)) (callbacks e)))
        @ [SetVolume (word_of_int (level_of (adc e))),
           SetText (getBlocks (word_of_int (level_of (adc e)))) 0]"
      by (simp add: appended_pass)
    then have "\<exists>pre. appended s (loopAudioLautst xc e s) =
        pre @ [SetVolume (word_of_int (level_of (adc e))),
               SetText (getBlocks (word_of_int (level_of (adc e)))) 0]"
      by (rule exI)
    moreover from c have "oldvolume (loopAudioLautst xc e s) = word_of_int (level_of (adc e))"
      by (simp add: oldvolume_pass)
    moreover from c have "volcount (loopAudioLautst xc e s) = 0"
      by (simp add: volcount_pass commits_def)
    ultimately show ?thesis
      by blast
  qed
  have cb0: "SetText t 0 \<notin> set (callback_events xc st cb)" for t st cb
    by (cases cb) simp_all
  have c: "(\<forall>v. SetVolume v \<notin> set (appended s' (loopAudioLautst xc e' s'))) \<and>
          (\<forall>t. SetText t 0 \<in> set (appended s' (loopAudioLautst xc e' s')) \<longrightarrow>
               t = status_text (clock e')) \<and>
          oldvolume (loopAudioLautst xc e' s') = oldvolume s'"
    if nc: "\<not> commits e' s'"
    using nc by (auto simp: appended_pass callback_events_no_SetVolume cb0 oldvolume_pass)
  have d: "volcount (loopAudioLautst xc e' s') = 0 \<and> \<not> commits e' s'"
    if "level_of (adc e') = uint (oldvolume s')"
    using that by (simp add: volcount_pass commits_def)
  from a b c d show ?thesis
    by blast
qed

theorem debounce_against_committed_level_witness:
  "volcount (setupAudio 0 boot) = 0
   \<and> commits (pass_at 26 1023) (ticks extraChar_plain (replicate 25 (pass_at 1 1023)) (setupAudio 0 boot))
   \<and> \<not> commits (pass_at 1 0) (setupAudio 0 boot)
   \<and> level_of (adc (pass_at 1 0)) = uint (oldvolume (setupAudio 0 boot))
   \<and> 25 \<le> length (replicate 25 (pass_at 1 1023))
   \<and> oldvolume (loopAudioLautst extraChar_plain (pass_at 26 1023)
        (ticks extraChar_plain (replicate 25 (pass_at 1 1023)) (setupAudio 0 boot))) =
        word_of_int (level_of (adc (pass_at 26 1023)))
   \<and> volcount (loopAudioLautst extraChar_plain (pass_at 1 0) (setupAudio 0 boot)) = 0
   \<and> oldvolume (loopAudioLautst extraChar_plain (pass_at 1 0) (setupAudio 0 boot)) =
        oldvolume (setupAudio 0 boot)"
proof -
  have h0: "volcount (setupAudio 0 boot) = 0"
    by code_simp
  have h1: "commits (pass_at 26 1023)
      (ticks extraChar_plain (replicate 25 (pass_at 1 1023)) (setupAudio 0 boot))"
    by code_simp
  have h2: "\<not> commits (pass_at 1 0) (setupAudio 0 boot)"
    by code_simp
  have h3: "level_of (adc (pass_at 1 0)) = uint (oldvolume (setupAudio 0 boot))"
    by code_simp
  from debounce_against_committed_level [OF h0, of "pass_at 26 1023" extraChar_plain
      "replicate 25 (pass_at 1 1023)"
      "ticks extraChar_plain (replicate 25 (pass_at 1 1023)) (setupAudio 0 boot)"
      "pass_at 1 0" "setupAudio 0 boot"] h0 h1 h2 h3
  show ?thesis
    by blast
qed

section \<open>The display\<close>

lemma shown_append: "shown (tr @ es) = fold apply_event es (shown tr)"
  by (simp add: shown_def)

lemma callback_events_keep_region0: "fold apply_event (callback_events xc st cb) d 0 = d 0"
  by (cases cb) simp_all

lemma callbacks_keep_region0:
  "fold apply_event (concat (map (callback_events xc st) cbs)) d 0 = d 0"
proof (induction cbs arbitrary: d)
  case Nil
  show ?case by simp
next
  case (Cons cb cbs)
  have "fold apply_event (concat (map (callback_events xc st) (cb # cbs))) d 0 =
      fold apply_event (concat (map (callback_events xc st) cbs))
        (fold apply_event (callback_events xc st cb) d) 0"
    by simp
  also have "\<dots> = fold apply_event (callback_events xc st cb) d 0"
    by (rule Cons.IH)
  also have "\<dots> = d 0"
    by (rule callback_events_keep_region0)
  finally show ?case .
qed

lemma shown0_pass:
  "shown (trace (loopAudioLautst xc env s)) 0 =
     (if commits env s then Some (getBlocks (word_of_int (level_of (adc env))))
      else if voldisplaystart s + 2000 < millis_check env then Some (status_text (clock env))
      else shown (trace s) 0)"
  by (simp add: trace_pass shown_append callbacks_keep_region0)

lemma hold_kept:
  assumes "shown (trace s) 0 = Some ind"
    and "no_commits xc es s"
    and "\<forall>e\<in>set es. \<not> voldisplaystart s + 2000 < millis_check e"
  shows "shown (trace (ticks xc es s)) 0 = Some ind \<and>
    voldisplaystart (ticks xc es s) = voldisplaystart s"
  using assms
proof (induction es arbitrary: s)
  case Nil
  then show ?case
    by (simp add: ticks_Nil)
next
  case (Cons e es)
  let ?s = "loopAudioLautst xc e s"
  from Cons.prems have nc: "\<not> commits e s" and rest: "no_commits xc es ?s"
    by simp_all
  from Cons.prems have early: "\<not> voldisplaystart s + 2000 < millis_check e"
    by simp
  from nc have start: "voldisplaystart ?s = voldisplaystart s"
    by (simp add: voldisplaystart_pass)
  from nc early Cons.prems(1) have ind: "shown (trace ?s) 0 = Some ind"
    by (simp add: shown0_pass)
  from Cons.prems(3) start have "\<forall>e\<in>set es. \<not> voldisplaystart ?s + 2000 < millis_check e"
    by simp
  from Cons.IH [OF ind rest this] start show ?case
    by (simp add: ticks_Cons)
qed

lemma expiry_compare:
  fixes t now :: "32 word"
  assumes "unat t + 2000 < 2 ^ 32"
  shows "t + 2000 < now \<longleftrightarrow> unat t + 2000 < unat now"
proof -
  have "unat (t + 2000) = unat t + 2000"
    using assms by (simp add: unat_word_ariths)
  then show ?thesis
    by (simp add: word_less_nat_alt)
qed

text \<open>
  C2, as stated: the pass at \<open>now = t + 2000\<close> would write the status line.  The
  commit of \<open>committed_at_26\<close> is made at millisecond 26; after the pass at millisecond
  2026 region 0 still shows the indicator.
\<close>

theorem revert_at_expiry_counterexample:
  "voldisplaystart committed_at_26 = 26
   \<and> shown (trace committed_at_26) 0 = Some (getBlocks 20)
   \<and> millis_check (pass_at 2026 1023) = 26 + 2000
   \<and> shown (trace (loopAudioLautst extraChar_plain (pass_at 2026 1023) committed_at_26)) 0 \<noteq>
        Some (status_text (clock (pass_at 2026 1023)))
   \<and> shown (trace (loopAudioLautst extraChar_plain (pass_at 2026 1023) committed_at_26)) 0 =
        Some (getBlocks 20)"
  by code_simp
text \<open>
  C2, amended: after a commit at time \<open>t\<close> (with \<open>t + 2000\<close> below \<open>2^32\<close>), region 0
  shows the indicator, and still shows it after any further passes without commit made
  at times up to \<open>t + 2000\<close>, so at \<open>t + 1999\<close> and at \<open>t + 2000\<close>; a following pass
  without commit writes the status line (application name, time, padding) to region 0
  exactly when its time is greater than \<open>t + 2000\<close>, so first at \<open>t + 2001\<close>.
\<close>

theorem indicator_held_until_after_expiry:
  assumes "commits e1 s0"
    and "unat (millis_commit e1) + 2000 < 2 ^ 32"
    and "no_commits xc es (loopAudioLautst xc e1 s0)"
    and "\<forall>e\<in>set es. unat (millis_check e) \<le> unat (millis_commit e1) + 2000"
    and "\<not> commits e2 (ticks xc es (loopAudioLautst xc e1 s0))"
  shows "shown (trace (loopAudioLautst xc e1 s0)) 0 = Some (getBlocks (word_of_int (level_of (adc e1))))
    \<and> shown (trace (ticks xc es (loopAudioLautst xc e1 s0))) 0 =
        Some (getBlocks (word_of_int (level_of (adc e1))))
    \<and> shown (trace (ticks xc (es @ [e2]) (loopAudioLautst xc e1 s0))) 0 =
        (if unat (millis_commit e1) + 2000 < unat (millis_check e2)
         then Some (status_text (clock e2))
         else Some (getBlocks (word_of_int (level_of (adc e1)))))"
proof -
  let ?s1 = "loopAudioLautst xc e1 s0"
  let ?ind = "getBlocks (word_of_int (level_of (adc e1)))"
  from assms(1) have start: "voldisplaystart ?s1 = millis_commit e1"
    by (simp add: voldisplaystart_pass)
  from assms(1) have ind: "shown (trace ?s1) 0 = Some ?ind"
    by (simp add: shown0_pass)
  from assms(4) have "\<forall>e\<in>set es. \<not> voldisplaystart ?s1 + 2000 < millis_check e"
    by (simp add: start expiry_compare [OF assms(2)] not_less)
  from hold_kept [OF ind assms(3) this]
  have kept: "shown (trace (ticks xc es ?s1)) 0 = Some ?ind"
    and still: "voldisplaystart (ticks xc es ?s1) = millis_commit e1"
    by (simp_all add: start)
  from assms(5) kept still have "shown (trace (ticks xc (es @ [e2]) ?s1)) 0 =
      (if unat (millis_commit e1) + 2000 < unat (millis_check e2)
       then Some (status_text (clock e2)) else Some ?ind)"
    by (simp add: ticks_snoc shown0_pass expiry_compare [OF assms(2)])
  with ind kept show ?thesis
    by simp
qed

theorem indicator_held_until_after_expiry_witness:
  "commits (pass_at 26 1023) turned_up
   \<and> unat (millis_commit (pass_at 26 1023)) + 2000 < 2 ^ 32
   \<and> no_commits extraChar_plain [pass_at 2025 1023, pass_at 2026 1023]
        (loopAudioLautst extraChar_plain (pass_at 26 1023) turned_up)
   \<and> unat (millis_check (pass_at 2025 1023)) \<le> unat (millis_commit (pass_at 26 1023)) + 2000
   \<and> unat (millis_check (pass_at 2026 1023)) \<le> unat (millis_commit (pass_at 26 1023)) + 2000
   \<and> \<not> commits (pass_at 2027 1023)
        (ticks extraChar_plain [pass_at 2025 1023, pass_at 2026 1023]
          (loopAudioLautst extraChar_plain (pass_at 26 1023) turned_up))
   \<and> shown (trace (ticks extraChar_plain [pass_at 2025 1023, pass_at 2026 1023]
        (loopAudioLautst extraChar_plain (pass_at 26 1023) turned_up))) 0 =
        Some (getBlocks (word_of_int (level_of (adc (pass_at 26 1023)))))
   \<and> shown (trace (ticks extraChar_plain ([pass_at 2025 1023, pass_at 2026 1023] @ [pass_at 2027 1023])
        (loopAudioLautst extraChar_plain (pass_at 26 1023) turned_up))) 0 =
        Some (status_text (clock (pass_at 2027 1023)))"
proof -
  have h1: "commits (pass_at 26 1023) turned_up"
    by code_simp
  have h2: "unat (millis_commit (pass_at 26 1023)) + 2000 < 2 ^ 32"
    by (simp add: pass_at_def)
  have h3: "no_commits extraChar_plain [pass_at 2025 1023, pass_at 2026 1023]
      (loopAudioLautst extraChar_plain (pass_at 26 1023) turned_up)"
    by code_simp
  have h4: "\<forall>e\<in>set [pass_at 2025 1023, pass_at 2026 1023].
      unat (millis_check e) \<le> unat (millis_commit (pass_at 26 1023)) + 2000"
    by (simp add: pass_at_def)
  have h5: "\<not> commits (pass_at 2027 1023)
      (ticks extraChar_plain [pass_at 2025 1023, pass_at 2026 1023]
        (loopAudioLautst extraChar_plain (pass_at 26 1023) turned_up))"
    by code_simp
  have h6: "unat (millis_commit (pass_at 26 1023)) + 2000 < unat (millis_check (pass_at 2027 1023))"
    by (simp add: pass_at_def)
  from indicator_held_until_after_expiry [OF h1 h2 h3 h4 h5] h6
  have "shown (trace (ticks extraChar_plain [pass_at 2025 1023, pass_at 2026 1023]
        (loopAudioLautst extraChar_plain (pass_at 26 1023) turned_up))) 0 =
        Some (getBlocks (word_of_int (level_of (adc (pass_at 26 1023)))))
     \<and> shown (trace (ticks extraChar_plain ([pass_at 2025 1023, pass_at 2026 1023] @ [pass_at 2027 1023])
        (loopAudioLautst extraChar_plain (pass_at 26 1023) turned_up))) 0 =
        Some (status_text (clock (pass_at 2027 1023)))"
    by (simp only: if_True simp_thms)
  moreover have "unat (millis_check (pass_at 2025 1023)) \<le> unat (millis_commit (pass_at 26 1023)) + 2000"
    and "unat (millis_check (pass_at 2026 1023)) \<le> unat (millis_commit (pass_at 26 1023)) + 2000"
    by (simp_all add: pass_at_def)
  ultimately show ?thesis
    using h1 h2 h3 h5 by (simp only: simp_thms)
qed

text \<open>
  C9: whatever the state, a stream title writes its artist to region 2 and its title to
  region 3, at once, and changes nothing else.  A pass without callback writes to
  region 0 only and leaves regions 2 and 3 as they were; a pass during which the
  title callback runs shows the new artist and title when it ends.
\<close>

theorem metadata_regions_independent:
  "audio_showstreamtitle xc raw s =
     s\<lparr>trace := trace s @ [SetText (shown_artist (xc raw)) 2, SetText (shown_title (xc raw)) 3]\<rparr>
   \<and> (callbacks e = [] \<longrightarrow>
        (\<forall>t r. SetText t r \<in> set (appended s (loopAudioLautst xc e s)) \<longrightarrow> r = 0) \<and>
        shown (trace (loopAudioLautst xc e s)) 2 = shown (trace s) 2 \<and>
        shown (trace (loopAudioLautst xc e s)) 3 = shown (trace s) 3)
   \<and> (callbacks e' = [ShowStreamTitle raw] \<longrightarrow>
        shown (trace (loopAudioLautst xc e' s)) 2 = Some (shown_artist (xc raw)) \<and>
        shown (trace (loopAudioLautst xc e' s)) 3 = Some (shown_title (xc raw)))"
proof -
  have a: "(\<forall>t r. SetText t r \<in> set (appended s (loopAudioLautst xc e s)) \<longrightarrow> r = 0) \<and>
        shown (trace (loopAudioLautst xc e s)) 2 = shown (trace s) 2 \<and>
        shown (trace (loopAudioLautst xc e s)) 3 = shown (trace s) 3"
    if "callbacks e = []"
    using that by (simp add: appended_pass trace_pass shown_append)
  have b: "shown (trace (loopAudioLautst xc e' s)) 2 = Some (shown_artist (xc raw)) \<and>
        shown (trace (loopAudioLautst xc e' s)) 3 = Some (shown_title (xc raw))"
    if "callbacks e' = [ShowStreamTitle raw]"
    using that by (simp add: trace_pass shown_append)
  from a b audio_showstreamtitle_eq [of xc raw s] show ?thesis
    by blast
qed

theorem metadata_regions_independent_witness:
  "callbacks (pass_at 100 1023) = []
   \<and> callbacks title_pass = [ShowStreamTitle ''Radio Caprice - Industrial Mix'']
   \<and> shown (trace committed_at_26) 0 = Some (getBlocks 20)
   \<and> shown (trace (loopAudioLautst extraChar_plain title_pass committed_at_26)) 0 = Some (getBlocks 20)
   \<and> shown (trace (loopAudioLautst extraChar_plain title_pass committed_at_26)) 2 = Some ''Radio Caprice''
   \<and> shown (trace (loopAudioLautst extraChar_plain title_pass committed_at_26)) 3 = Some ''Industrial Mix''
   \<and> shown (trace (loopAudioLautst extraChar_plain (pass_at 100 1023) committed_at_26)) 2 =
        shown (trace committed_at_26) 2
   \<and> shown (trace (loopAudioLautst extraChar_plain (pass_at 100 1023) committed_at_26)) 3 =
        shown (trace committed_at_26) 3"
proof -
  have h1: "callbacks (pass_at 100 1023) = []"
    by (simp add: pass_at_def)
  have h2: "callbacks title_pass = [ShowStreamTitle ''Radio Caprice - Industrial Mix'']"
    by (simp add: title_pass_def)
  have h3: "shown (trace committed_at_26) 0 = Some (getBlocks 20)"
    by code_simp
  have h4: "shown (trace (loopAudioLautst extraChar_plain title_pass committed_at_26)) 0 = Some (getBlocks 20)"
    by code_simp
  have h5: "shown_artist (extraChar_plain ''Radio Caprice - Industrial Mix'') = ''Radio Caprice''"
    by code_simp
  have h6: "shown_title (extraChar_plain ''Radio Caprice - Industrial Mix'') = ''Industrial Mix''"
    by code_simp
  from metadata_regions_independent [of extraChar_plain "''Radio Caprice - Industrial Mix''"
      committed_at_26 "pass_at 100 1023" title_pass] h1 h2 h3 h4 h5 h6
  show ?thesis
    by (simp only: simp_thms)
qed

section \<open>The range of the volume\<close>












end
